theory Spec2Isabelle
  imports Main "HOL-Library.Word"
begin

unbundle bit_operations_syntax

section \<open>Data model of the interrupt table (include/interrupt/dynamic_controller.hpp)\<close>

text \<open>
  The C++ source identifies resources, registers, fields and callbacks by types. Here each
  identity is a value of a type parameter: \<open>'res\<close> for resource types, \<open>'reg\<close> for register
  types, \<open>'cb\<close> for callback types. \<open>RegType::DataType\<close> is the parameter \<open>'d\<close> of the
  records, an unsigned machine integer \<open>'w word\<close> wherever the code computes with it;
  \<open>std::numeric_limits<DataType>::max()\<close> is the all-ones word \<open>- 1\<close>.
\<close>

datatype resource_status = OFF | ON

text \<open>An enable field: \<open>Field::RegisterType\<close> / \<open>get_register()\<close> and \<open>get_mask()\<close>.\<close>

record ('reg, 'd) field =
  get_register :: 'reg
  get_mask :: 'd

text \<open>
  An interrupt of \<open>RootT::all_irqs\<close>: the optional static member \<open>enable_field\<close>
  (\<open>has_enable_field\<close> tests its presence), the tuple \<open>resources\<close> and \<open>IrqCallbackType\<close>.
\<close>

record ('res, 'reg, 'cb, 'd) irq =
  enable_field :: "('reg, 'd) field option"
  resources :: "'res list"
  IrqCallbackType :: 'cb

text \<open>
  The static variable templates of \<open>dynamic_controller\<close>, one value per type argument, and the
  hardware: the list of register writes issued so far, oldest first.
\<close>

record ('res, 'reg, 'd) controller =
  is_resource_on :: "'res \<Rightarrow> bool"
  allowed_enables :: "'reg \<Rightarrow> 'd"
  dynamic_enables :: "'reg \<Rightarrow> 'd"
  hw_writes :: "('reg \<times> 'd) list"

text \<open>The \<open>CONSTINIT\<close> initialisers: resources on, everything allowed, nothing requested.\<close>

definition init_controller :: "('res, 'reg, 'w::len word) controller" where
  "init_controller =
     \<lparr>is_resource_on = (\<lambda>_. True), allowed_enables = (\<lambda>_. - 1),
      dynamic_enables = (\<lambda>_. 0), hw_writes = []\<rparr>"

section \<open>Static derivation\<close>

definition has_enable_field :: "('res, 'reg, 'cb, 'w::len word) irq \<Rightarrow> bool" where
  "has_enable_field i = (enable_field i \<noteq> None)"

definition doesnt_require_resource ::
  "'res \<Rightarrow> ('res, 'reg, 'cb, 'w::len word) irq \<Rightarrow> bool" where
  "doesnt_require_resource r i = (has_enable_field i \<and> r \<notin> set (resources i))"

definition in_register :: "'reg \<Rightarrow> ('reg, 'w::len word) field \<Rightarrow> bool" where
  "in_register r f = (r = get_register f)"

text \<open>
  \<open>irqs_allowed<ResourceType, RegType>\<close>: filter, transform, filter, \<open>fold_left\<close> from
  \<open>DataType{}\<close> with bitwise or.
\<close>

definition irqs_allowed ::
  "('res, 'reg, 'cb, 'w::len word) irq list \<Rightarrow> 'res \<Rightarrow> 'reg \<Rightarrow> 'w word" where
  "irqs_allowed all_irqs r rg =
     (let matching_irqs = filter (doesnt_require_resource r) all_irqs;
          interrupt_enables_tuple = map (\<lambda>i. the (enable_field i)) matching_irqs;
          fields_in_reg = filter (in_register rg) interrupt_enables_tuple
      in foldl (\<lambda>v f. v OR get_mask f) 0 fields_in_reg)"

text \<open>
  \<open>get_unique_regs\<close>: keeps the first occurrence of every register. The source calls it on a
  tuple of fields and on a tuple of registers (a register answers \<open>get_register()\<close> with
  itself), so the model takes the registers.
\<close>

definition get_unique_regs :: "'reg list \<Rightarrow> 'reg list" where
  "get_unique_regs rs =
     foldl (\<lambda>regs rg. if rg \<in> set regs then regs else regs @ [rg]) [] rs"

definition all_resources :: "('res, 'reg, 'cb, 'w::len word) irq list \<Rightarrow> 'res list" where
  "all_resources all_irqs =
     foldl (\<lambda>rs i. rs @ filter (\<lambda>r. r \<notin> set rs) (resources i)) [] all_irqs"

definition all_resource_affected_regs ::
  "('res, 'reg, 'cb, 'w::len word) irq list \<Rightarrow> 'reg list" where
  "all_resource_affected_regs all_irqs =
     get_unique_regs
       (foldl (\<lambda>registers i.
                 if has_enable_field i \<and> 0 < length (resources i)
                 then registers @ [get_register (the (enable_field i))]
                 else registers) [] all_irqs)"

section \<open>Run time\<close>

text \<open>\<open>apply(write(reg.raw(final_enables)))\<close> appends one write to the hardware log.\<close>

definition reprogram_interrupt_enables ::
  "'reg list \<Rightarrow> ('res, 'reg, 'w::len word) controller \<Rightarrow> ('res, 'reg, 'w word) controller" where
  "reprogram_interrupt_enables regs s =
     foldl (\<lambda>t rg.
              let final_enables = allowed_enables t rg AND dynamic_enables t rg
              in t\<lparr>hw_writes := hw_writes t @ [(rg, final_enables)]\<rparr>) s regs"

text \<open>
  \<open>recalculate_allowed_enables\<close>: the three loops of the source. It also returns
  \<open>all_resource_affected_regs\<close>, a constant, which its only caller does not use.
\<close>

definition recalculate_allowed_enables ::
  "('res, 'reg, 'cb, 'w::len word) irq list \<Rightarrow> ('res, 'reg, 'w word) controller
     \<Rightarrow> ('res, 'reg, 'w word) controller" where
  "recalculate_allowed_enables all_irqs s =
     (let s1 = foldl (\<lambda>t rg. t\<lparr>allowed_enables := (allowed_enables t)(rg := - 1)\<rparr>)
                 s (all_resource_affected_regs all_irqs)
      in foldl (\<lambda>t r.
                  if \<not> is_resource_on t r
                  then foldl (\<lambda>u rg. u\<lparr>allowed_enables := (allowed_enables u)
                                 (rg := allowed_enables u rg AND irqs_allowed all_irqs r rg)\<rparr>)
                         t (all_resource_affected_regs all_irqs)
                  else t)
           s1 (all_resources all_irqs))"

text \<open>
  \<open>conc::call_in_critical_section\<close> runs its body; in this sequential model nothing else runs
  meanwhile.
\<close>

definition call_in_critical_section :: "('s \<Rightarrow> 's) \<Rightarrow> 's \<Rightarrow> 's" where
  "call_in_critical_section body s = body s"

definition update_resource ::
  "('res, 'reg, 'cb, 'w::len word) irq list \<Rightarrow> 'res \<Rightarrow> resource_status
     \<Rightarrow> ('res, 'reg, 'w word) controller \<Rightarrow> ('res, 'reg, 'w word) controller" where
  "update_resource all_irqs r status =
     call_in_critical_section (\<lambda>s.
       let s1 = s\<lparr>is_resource_on := (is_resource_on s)(r := (status = ON))\<rparr>;
           s2 = recalculate_allowed_enables all_irqs s1
       in reprogram_interrupt_enables (all_resource_affected_regs all_irqs) s2)"

definition turn_on_resource ::
  "('res, 'reg, 'cb, 'w::len word) irq list \<Rightarrow> 'res
     \<Rightarrow> ('res, 'reg, 'w word) controller \<Rightarrow> ('res, 'reg, 'w word) controller" where
  "turn_on_resource all_irqs r = update_resource all_irqs r ON"

definition turn_off_resource ::
  "('res, 'reg, 'cb, 'w::len word) irq list \<Rightarrow> 'res
     \<Rightarrow> ('res, 'reg, 'w word) controller \<Rightarrow> ('res, 'reg, 'w word) controller" where
  "turn_off_resource all_irqs r = update_resource all_irqs r OFF"

definition enable_by_field ::
  "bool \<Rightarrow> ('reg, 'w::len word) field list
     \<Rightarrow> ('res, 'reg, 'w word) controller \<Rightarrow> ('res, 'reg, 'w word) controller" where
  "enable_by_field en interrupt_enables_tuple =
     call_in_critical_section (\<lambda>s.
       let s1 = foldl (\<lambda>t f.
                   if en
                   then t\<lparr>dynamic_enables := (dynamic_enables t)
                            (get_register f := dynamic_enables t (get_register f) OR get_mask f)\<rparr>
                   else t\<lparr>dynamic_enables := (dynamic_enables t)
                            (get_register f :=
                               dynamic_enables t (get_register f) AND NOT (get_mask f))\<rparr>)
                 s interrupt_enables_tuple;
           unique_regs = get_unique_regs (map get_register interrupt_enables_tuple)
       in reprogram_interrupt_enables unique_regs s1)"

definition match_callback :: "'cb list \<Rightarrow> ('res, 'reg, 'cb, 'w::len word) irq \<Rightarrow> bool" where
  "match_callback callbacks i =
     (has_enable_field i \<and> (\<exists>c \<in> set callbacks. IrqCallbackType i = c))"

definition enable_by_name ::
  "('res, 'reg, 'cb, 'w::len word) irq list \<Rightarrow> bool \<Rightarrow> 'cb list
     \<Rightarrow> ('res, 'reg, 'w word) controller \<Rightarrow> ('res, 'reg, 'w word) controller" where
  "enable_by_name all_irqs en callbacks_to_find s =
     (let matching_irqs = filter (match_callback callbacks_to_find) all_irqs;
          interrupt_enables_tuple = map (\<lambda>i. the (enable_field i)) matching_irqs
      in enable_by_field en interrupt_enables_tuple s)"

definition enable ::
  "('res, 'reg, 'cb, 'w::len word) irq list \<Rightarrow> 'cb list
     \<Rightarrow> ('res, 'reg, 'w word) controller \<Rightarrow> ('res, 'reg, 'w word) controller" where
  "enable all_irqs callbacks_to_find = enable_by_name all_irqs True callbacks_to_find"

definition disable ::
  "('res, 'reg, 'cb, 'w::len word) irq list \<Rightarrow> 'cb list
     \<Rightarrow> ('res, 'reg, 'w word) controller \<Rightarrow> ('res, 'reg, 'w word) controller" where
  "disable all_irqs callbacks_to_find = enable_by_name all_irqs False callbacks_to_find"

text \<open>The control surface as data, and a sequence of calls run from a state.\<close>

datatype ('res, 'reg, 'cb, 'd) call =
    Update_resource 'res resource_status
  | Turn_on_resource 'res
  | Turn_off_resource 'res
  | Enable_by_field bool "('reg, 'd) field list"
  | Enable "'cb list"
  | Disable "'cb list"

fun do_call ::
  "('res, 'reg, 'cb, 'w::len word) irq list \<Rightarrow> ('res, 'reg, 'w word) controller
     \<Rightarrow> ('res, 'reg, 'cb, 'w word) call \<Rightarrow> ('res, 'reg, 'w word) controller" where
  "do_call all_irqs s (Update_resource r status) = update_resource all_irqs r status s"
| "do_call all_irqs s (Turn_on_resource r) = turn_on_resource all_irqs r s"
| "do_call all_irqs s (Turn_off_resource r) = turn_off_resource all_irqs r s"
| "do_call all_irqs s (Enable_by_field en fs) = enable_by_field en fs s"
| "do_call all_irqs s (Enable cbs) = enable all_irqs cbs s"
| "do_call all_irqs s (Disable cbs) = disable all_irqs cbs s"

definition run_calls ::
  "('res, 'reg, 'cb, 'w::len word) irq list \<Rightarrow> ('res, 'reg, 'cb, 'w word) call list
     \<Rightarrow> ('res, 'reg, 'w word) controller" where
  "run_calls all_irqs calls = foldl (do_call all_irqs) init_controller calls"

text \<open>The value most recently written to a register, if any.\<close>

definition last_written :: "('res, 'reg, 'w::len word) controller \<Rightarrow> 'reg \<Rightarrow> 'w word option" where
  "last_written s rg = map_of (rev (hw_writes s)) rg"

section \<open>Specification-side definitions\<close>

text \<open>
  The allowed mask as the specification words it: for an affected register, the bitwise and of
  \<open>IrqsAllowed(resource, register)\<close> over the resources of \<open>AllResources\<close> that are OFF, all-ones when
  none is; all-ones for every other register.
\<close>

definition allowed_mask_spec ::
  "('res, 'reg, 'cb, 'w::len word) irq list \<Rightarrow> ('res \<Rightarrow> bool) \<Rightarrow> 'reg \<Rightarrow> 'w word" where
  "allowed_mask_spec all_irqs on rg =
     (if rg \<in> set (all_resource_affected_regs all_irqs)
      then foldl (\<lambda>a r. a AND irqs_allowed all_irqs r rg) (- 1)
             (filter (\<lambda>r. \<not> on r) (all_resources all_irqs))
      else - 1)"

text \<open>
  \<open>IrqsAllowed(resource, register)\<close> as the specification words it: the bitwise or of the masks of
  the fields that belong to the register, of the interrupts that have an enable field and do not
  list the resource.
\<close>

definition opt_list :: "'a option \<Rightarrow> 'a list" where
  "opt_list x = (case x of None \<Rightarrow> [] | Some y \<Rightarrow> [y])"

definition irqs_allowed_spec ::
  "('res, 'reg, 'cb, 'w::len word) irq list \<Rightarrow> 'res \<Rightarrow> 'reg \<Rightarrow> 'w word" where
  "irqs_allowed_spec all_irqs r rg =
     foldr (OR)
       [get_mask f. i \<leftarrow> all_irqs, f \<leftarrow> opt_list (enable_field i),
                    get_register f = rg, r \<notin> set (resources i)]
       0"

text \<open>Every register that has been written holds the composed value of the current masks.\<close>

definition hw_composed :: "('res, 'reg, 'w::len word) controller \<Rightarrow> bool" where
  "hw_composed s = (\<forall>rg v. last_written s rg = Some v \<longrightarrow>
      v = allowed_enables s rg AND dynamic_enables s rg)"

text \<open>
  The example scenario of the specification: interrupt X (register R1, bit 0x1) depends on resource
  A; interrupt Y (register R1, bit 0x2) depends on nothing.
\<close>

definition field_X :: "(string, 32 word) field" where
  "field_X = \<lparr>get_register = ''R1'', get_mask = 1\<rparr>"

definition field_Y :: "(string, 32 word) field" where
  "field_Y = \<lparr>get_register = ''R1'', get_mask = 2\<rparr>"

definition example_irqs :: "(string, string, string, 32 word) irq list" where
  "example_irqs =
     [\<lparr>enable_field = Some field_X, resources = [''A''], IrqCallbackType = ''X''\<rparr>,
      \<lparr>enable_field = Some field_Y, resources = [], IrqCallbackType = ''Y''\<rparr>]"

text \<open>An interrupt that lists resource A twice.\<close>

definition duplicate_resource_irqs :: "(string, string, string, 32 word) irq list" where
  "duplicate_resource_irqs =
     [\<lparr>enable_field = Some field_X, resources = [''A'', ''A''], IrqCallbackType = ''X''\<rparr>]"

text \<open>Two interrupts on the same enable field; only the first depends on resource A.\<close>

definition shared_bit_irqs :: "(string, string, string, 32 word) irq list" where
  "shared_bit_irqs =
     [\<lparr>enable_field = Some field_X, resources = [''A''], IrqCallbackType = ''X''\<rparr>,
      \<lparr>enable_field = Some field_X, resources = [], IrqCallbackType = ''Y''\<rparr>]"

text \<open>One interrupt that depends on the resources A and B.\<close>

definition two_resource_irqs :: "(string, string, string, 32 word) irq list" where
  "two_resource_irqs =
     [\<lparr>enable_field = Some field_X, resources = [''A'', ''B''], IrqCallbackType = ''X''\<rparr>]"

section \<open>The indexed message handler (include/msg/indexed_handler.hpp)\<close>

text \<open>
  \<open>index<Field, Lookup>\<close>: \<open>Field::extract\<close> reads the field's value from the message and
  \<open>field_lookup[...]\<close> maps it to a bitset of callback indices. The lookup structure and the
  bitset are library types; a lookup is a function here and a bitset of \<open>N\<close> bits an \<open>N\<close>-bit word.
\<close>

record ('msg, 'k, 'b) field_index =
  field_extract :: "'msg \<Rightarrow> 'k"
  field_lookup :: "'k \<Rightarrow> 'b"

definition index_call :: "('msg, 'k, 'n::len word) field_index \<Rightarrow> 'msg \<Rightarrow> 'n word" where
  "index_call ix data = field_lookup ix (field_extract ix data)"

text \<open>
  \<open>indices<IndicesT...>::operator()\<close>: the fold expression \<open>(index(data) & ...)\<close> over
  a pack of at least one index (the unary fold over \<open>&\<close> does not compile for an empty pack).
\<close>

fun indices_call ::
  "('msg, 'k, 'n::len word) field_index \<Rightarrow> ('msg, 'k, 'n word) field_index list
     \<Rightarrow> 'msg \<Rightarrow> 'n word" where
  "indices_call ix [] data = index_call ix data"
| "indices_call ix (iy # ixs) data = index_call ix data AND indices_call iy ixs data"

text \<open>
  \<open>indexed_handler\<close>: its member \<open>index\<close> is an \<open>indices<...>\<close> object, given by its first index and
  the others. The array \<open>callback_entries\<close> appears through the positions \<open>handle\<close> calls.
\<close>

record ('msg, 'k, 'b) indexed_handler =
  index_first :: "('msg, 'k, 'b) field_index"
  index_rest :: "('msg, 'k, 'b) field_index list"

text \<open>\<open>bitset::none()\<close>, and the set bits that \<open>for_each\<close> visits, in ascending order.\<close>

definition none :: "'n::len word \<Rightarrow> bool" where
  "none w = (w = 0)"

definition set_bits :: "'n::len word \<Rightarrow> nat list" where
  "set_bits w = filter (bit w) [0..<LENGTH('n)]"

text \<open>
  What \<open>handle\<close> does, in order: \<open>Callback i\<close> is the call \<open>callback_entries[i](msg, args...)\<close>
  and \<open>Error\<close> the \<open>CIB_ERROR\<close> log line.
\<close>

datatype event = Callback nat | Error string

definition handler_index :: "('msg, 'k, 'n::len word) indexed_handler \<Rightarrow> 'msg \<Rightarrow> 'n word" where
  "handler_index h msg = indices_call (index_first h) (index_rest h) msg"

definition is_match :: "('msg, 'k, 'n::len word) indexed_handler \<Rightarrow> 'msg \<Rightarrow> bool" where
  "is_match h msg = (\<not> none (handler_index h msg))"

definition handle :: "('msg, 'k, 'n::len word) indexed_handler \<Rightarrow> 'msg \<Rightarrow> event list" where
  "handle h msg =
     (let callback_candidates = handler_index h msg
      in map Callback (set_bits callback_candidates)
         @ (if none callback_candidates
            then [Error ''None of the registered callbacks claimed this message.'']
            else []))"

text \<open>The intersection of the per-field lookups, bit by bit.\<close>

definition in_intersection ::
  "('msg, 'k, 'n::len word) indexed_handler \<Rightarrow> 'msg \<Rightarrow> nat \<Rightarrow> bool" where
  "in_intersection h msg i =
     (\<forall>ix \<in> set (index_first h # index_rest h). bit (index_call ix msg) i)"

text \<open>
  A handler with two indexed fields and three callbacks: the first field's value 1 selects
  callbacks 0 and 1, the second field's value 7 selects callbacks 1 and 2.
\<close>

definition example_handler :: "(nat \<times> nat, nat, 8 word) indexed_handler" where
  "example_handler =
     \<lparr>index_first = \<lparr>field_extract = fst, field_lookup = (\<lambda>k. if k = 1 then 3 else 0)\<rparr>,
      index_rest = [\<lparr>field_extract = snd, field_lookup = (\<lambda>k. if k = 7 then 6 else 0)\<rparr>]\<rparr>"

section \<open>Loops of the controller, characterised\<close>

lemma bit_foldl_or:
  "bit (foldl (\<lambda>v f. v OR g f) (a::'w::len word) fs) n \<longleftrightarrow> bit a n \<or> (\<exists>f \<in> set fs. bit (g f) n)"
  by (induction fs arbitrary: a) (auto simp: bit_or_iff)

lemma bit_foldl_and:
  "bit (foldl (\<lambda>v x. v AND g x) (a::'w::len word) xs) n \<longleftrightarrow> bit a n \<and> (\<forall>x \<in> set xs. bit (g x) n)"
  by (induction xs arbitrary: a) (auto simp: bit_and_iff)

lemma reprogram_frame [simp]:
  "is_resource_on (reprogram_interrupt_enables regs s) = is_resource_on s"
  "allowed_enables (reprogram_interrupt_enables regs s) = allowed_enables s"
  "dynamic_enables (reprogram_interrupt_enables regs s) = dynamic_enables s"
  unfolding reprogram_interrupt_enables_def
  by (induction regs arbitrary: s) (simp_all add: Let_def)

lemma reprogram_writes:
  "hw_writes (reprogram_interrupt_enables regs s) =
     hw_writes s @ map (\<lambda>rg. (rg, allowed_enables s rg AND dynamic_enables s rg)) regs"
proof (induction regs arbitrary: s)
  case Nil
  show ?case by (simp add: reprogram_interrupt_enables_def)
next
  case (Cons rg regs)
  have step: "reprogram_interrupt_enables (rg # regs) s =
      reprogram_interrupt_enables regs
        (s\<lparr>hw_writes := hw_writes s @ [(rg, allowed_enables s rg AND dynamic_enables s rg)]\<rparr>)"
    by (simp add: reprogram_interrupt_enables_def Let_def)
  show ?case unfolding step Cons.IH by simp
qed

lemma reset_loop_frame [simp]:
  "is_resource_on (foldl (\<lambda>t rg. t\<lparr>allowed_enables := (allowed_enables t)(rg := v)\<rparr>) s regs) = is_resource_on s"
  "dynamic_enables (foldl (\<lambda>t rg. t\<lparr>allowed_enables := (allowed_enables t)(rg := v)\<rparr>) s regs) = dynamic_enables s"
  "hw_writes (foldl (\<lambda>t rg. t\<lparr>allowed_enables := (allowed_enables t)(rg := v)\<rparr>) s regs) = hw_writes s"
  by (induction regs arbitrary: s) simp_all

lemma reset_loop_allowed:
  "allowed_enables (foldl (\<lambda>t rg. t\<lparr>allowed_enables := (allowed_enables t)(rg := v)\<rparr>) s regs) x
     = (if x \<in> set regs then v else allowed_enables s x)"
  by (induction regs arbitrary: s) auto

lemma mask_loop_frame [simp]:
  "is_resource_on (foldl (\<lambda>u rg. u\<lparr>allowed_enables := (allowed_enables u)(rg := allowed_enables u rg AND m rg)\<rparr>) s regs) = is_resource_on s"
  "dynamic_enables (foldl (\<lambda>u rg. u\<lparr>allowed_enables := (allowed_enables u)(rg := allowed_enables u rg AND m rg)\<rparr>) s regs) = dynamic_enables s"
  "hw_writes (foldl (\<lambda>u rg. u\<lparr>allowed_enables := (allowed_enables u)(rg := allowed_enables u rg AND m rg)\<rparr>) s regs) = hw_writes s"
  by (induction regs arbitrary: s) simp_all

lemma mask_loop_allowed:
  "allowed_enables (foldl (\<lambda>u rg. u\<lparr>allowed_enables := (allowed_enables u)(rg := allowed_enables u rg AND m rg)\<rparr>) s regs) x
     = (if x \<in> set regs then allowed_enables s x AND m x else allowed_enables s x)"
  by (induction regs arbitrary: s) (auto simp: and.assoc)

lemma resource_loop_frame [simp]:
  "is_resource_on (foldl (\<lambda>t r. if \<not> is_resource_on t r
       then foldl (\<lambda>u rg. u\<lparr>allowed_enables := (allowed_enables u)(rg := allowed_enables u rg AND m r rg)\<rparr>) t regs
       else t) s ress) = is_resource_on s"
  "dynamic_enables (foldl (\<lambda>t r. if \<not> is_resource_on t r
       then foldl (\<lambda>u rg. u\<lparr>allowed_enables := (allowed_enables u)(rg := allowed_enables u rg AND m r rg)\<rparr>) t regs
       else t) s ress) = dynamic_enables s"
  "hw_writes (foldl (\<lambda>t r. if \<not> is_resource_on t r
       then foldl (\<lambda>u rg. u\<lparr>allowed_enables := (allowed_enables u)(rg := allowed_enables u rg AND m r rg)\<rparr>) t regs
       else t) s ress) = hw_writes s"
  by (induction ress arbitrary: s) simp_all

lemma resource_loop_allowed:
  "allowed_enables (foldl (\<lambda>t r. if \<not> is_resource_on t r
       then foldl (\<lambda>u rg. u\<lparr>allowed_enables := (allowed_enables u)(rg := allowed_enables u rg AND m r rg)\<rparr>) t regs
       else t) s ress) x
   = (if x \<in> set regs
      then foldl (\<lambda>a r. a AND m r x) (allowed_enables s x) (filter (\<lambda>r. \<not> is_resource_on s r) ress)
      else allowed_enables s x)"
  by (induction ress arbitrary: s) (simp_all add: mask_loop_allowed)

lemma recalculate_frame [simp]:
  "is_resource_on (recalculate_allowed_enables all_irqs s) = is_resource_on s"
  "dynamic_enables (recalculate_allowed_enables all_irqs s) = dynamic_enables s"
  "hw_writes (recalculate_allowed_enables all_irqs s) = hw_writes s"
  by (simp_all add: recalculate_allowed_enables_def Let_def)

lemma recalculate_allowed:
  "allowed_enables (recalculate_allowed_enables all_irqs s) x
   = (if x \<in> set (all_resource_affected_regs all_irqs)
      then foldl (\<lambda>a r. a AND irqs_allowed all_irqs r x) (- 1)
             (filter (\<lambda>r. \<not> is_resource_on s r) (all_resources all_irqs))
      else allowed_enables s x)"
  by (simp add: recalculate_allowed_enables_def Let_def resource_loop_allowed reset_loop_allowed)

lemma set_get_unique_regs_aux:
  "set (foldl (\<lambda>regs rg. if rg \<in> set regs then regs else regs @ [rg]) acc rs) = set acc \<union> set rs"
  by (induction rs arbitrary: acc) auto

lemma distinct_get_unique_regs_aux:
  "distinct acc \<Longrightarrow> distinct (foldl (\<lambda>regs rg. if rg \<in> set regs then regs else regs @ [rg]) acc rs)"
  by (induction rs arbitrary: acc) auto

lemma set_get_unique_regs [simp]: "set (get_unique_regs rs) = set rs"
  by (simp add: get_unique_regs_def set_get_unique_regs_aux)

lemma distinct_get_unique_regs [simp]: "distinct (get_unique_regs rs)"
  by (simp add: get_unique_regs_def distinct_get_unique_regs_aux)

lemma request_loop_frame [simp]:
  "is_resource_on (foldl (\<lambda>t f. if en
       then t\<lparr>dynamic_enables := (dynamic_enables t)(get_register f := dynamic_enables t (get_register f) OR get_mask f)\<rparr>
       else t\<lparr>dynamic_enables := (dynamic_enables t)(get_register f := dynamic_enables t (get_register f) AND NOT (get_mask f))\<rparr>) s fs) = is_resource_on s"
  "allowed_enables (foldl (\<lambda>t f. if en
       then t\<lparr>dynamic_enables := (dynamic_enables t)(get_register f := dynamic_enables t (get_register f) OR get_mask f)\<rparr>
       else t\<lparr>dynamic_enables := (dynamic_enables t)(get_register f := dynamic_enables t (get_register f) AND NOT (get_mask f))\<rparr>) s fs) = allowed_enables s"
  "hw_writes (foldl (\<lambda>t f. if en
       then t\<lparr>dynamic_enables := (dynamic_enables t)(get_register f := dynamic_enables t (get_register f) OR get_mask f)\<rparr>
       else t\<lparr>dynamic_enables := (dynamic_enables t)(get_register f := dynamic_enables t (get_register f) AND NOT (get_mask f))\<rparr>) s fs) = hw_writes s"
  by (induction fs arbitrary: s) simp_all

lemma request_loop_other:
  "x \<notin> get_register ` set fs \<Longrightarrow>
   dynamic_enables (foldl (\<lambda>t f. if en
       then t\<lparr>dynamic_enables := (dynamic_enables t)(get_register f := dynamic_enables t (get_register f) OR get_mask f)\<rparr>
       else t\<lparr>dynamic_enables := (dynamic_enables t)(get_register f := dynamic_enables t (get_register f) AND NOT (get_mask f))\<rparr>) s fs) x
   = dynamic_enables s x"
  by (induction fs arbitrary: s) simp_all

lemma update_resource_frame [simp]:
  "dynamic_enables (update_resource all_irqs r st s) = dynamic_enables s"
  "is_resource_on (update_resource all_irqs r st s) = (is_resource_on s)(r := (st = ON))"
  by (simp_all add: update_resource_def call_in_critical_section_def Let_def)

lemma update_resource_allowed:
  "allowed_enables (update_resource all_irqs r st s) x
   = (if x \<in> set (all_resource_affected_regs all_irqs)
      then foldl (\<lambda>a r. a AND irqs_allowed all_irqs r x) (- 1)
             (filter (\<lambda>q. \<not> ((is_resource_on s)(r := (st = ON))) q) (all_resources all_irqs))
      else allowed_enables s x)"
  by (simp add: update_resource_def call_in_critical_section_def Let_def recalculate_allowed)

lemma enable_by_field_frame [simp]:
  "is_resource_on (enable_by_field en fs s) = is_resource_on s"
  "allowed_enables (enable_by_field en fs s) = allowed_enables s"
  by (simp_all add: enable_by_field_def call_in_critical_section_def Let_def)

lemma enable_by_field_other:
  "x \<notin> get_register ` set fs \<Longrightarrow> dynamic_enables (enable_by_field en fs s) x = dynamic_enables s x"
  by (simp add: enable_by_field_def call_in_critical_section_def Let_def request_loop_other)

lemma map_of_rev_graph:
  "map_of (rev (map (\<lambda>k. (k, f k)) ks)) x = (if x \<in> set ks then Some (f x) else None)"
  by (induction ks) (auto simp: map_add_def split: option.splits)

lemma last_written_reprogram:
  "last_written (reprogram_interrupt_enables regs s) x
   = (if x \<in> set regs then Some (allowed_enables s x AND dynamic_enables s x) else last_written s x)"
  by (simp add: last_written_def reprogram_writes map_of_rev_graph map_add_def)

section \<open>The static derivation, characterised\<close>

lemma set_all_resources_aux:
  "set (foldl (\<lambda>rs i. rs @ filter (\<lambda>r. r \<notin> set rs) (resources i)) acc irqs)
     = set acc \<union> (\<Union>i \<in> set irqs. set (resources i))"
  by (induction irqs arbitrary: acc) auto

lemma set_all_resources:
  "set (all_resources all_irqs) = (\<Union>i \<in> set all_irqs. set (resources i))"
  by (simp add: all_resources_def set_all_resources_aux)

lemma distinct_all_resources_aux:
  "distinct acc \<Longrightarrow> \<forall>i \<in> set irqs. distinct (resources i) \<Longrightarrow>
   distinct (foldl (\<lambda>rs i. rs @ filter (\<lambda>r. r \<notin> set rs) (resources i)) acc irqs)"
proof (induction irqs arbitrary: acc)
  case Nil
  then show ?case by simp
next
  case (Cons i irqs)
  have "distinct (acc @ filter (\<lambda>r. r \<notin> set acc) (resources i))"
    using Cons.prems by auto
  moreover have "\<forall>j \<in> set irqs. distinct (resources j)"
    using Cons.prems by simp
  ultimately show ?case using Cons.IH by simp
qed

lemma distinct_all_resources:
  "\<forall>i \<in> set all_irqs. distinct (resources i) \<Longrightarrow> distinct (all_resources all_irqs)"
  by (simp add: all_resources_def distinct_all_resources_aux)

lemma affected_fold_set:
  "set (foldl (\<lambda>registers i.
                 if has_enable_field i \<and> resources i \<noteq> []
                 then registers @ [get_register (the (enable_field i))]
                 else registers) acc irqs)
   = set acc \<union> {get_register (the (enable_field i)) | i. i \<in> set irqs \<and> has_enable_field i \<and> resources i \<noteq> []}"
  by (induction irqs arbitrary: acc) auto

lemma set_all_resource_affected_regs:
  "set (all_resource_affected_regs all_irqs)
   = {get_register f | i f. i \<in> set all_irqs \<and> enable_field i = Some f \<and> resources i \<noteq> []}"
proof -
  have "set (all_resource_affected_regs all_irqs)
     = {get_register (the (enable_field i)) | i. i \<in> set all_irqs \<and> has_enable_field i \<and> resources i \<noteq> []}"
    by (simp add: all_resource_affected_regs_def affected_fold_set)
  also have "\<dots> = {get_register f | i f. i \<in> set all_irqs \<and> enable_field i = Some f \<and> resources i \<noteq> []}"
    by (simp add: has_enable_field_def set_eq_iff) (metis option.sel)
  finally show ?thesis .
qed

lemma bit_irqs_allowed:
  "bit (irqs_allowed all_irqs r rg) n \<longleftrightarrow>
     (\<exists>i \<in> set all_irqs. \<exists>f. enable_field i = Some f \<and> get_register f = rg
         \<and> r \<notin> set (resources i) \<and> bit (get_mask f) n)"
proof -
  have "bit (irqs_allowed all_irqs r rg) n \<longleftrightarrow>
      (\<exists>i \<in> set all_irqs. doesnt_require_resource r i \<and> in_register rg (the (enable_field i))
          \<and> bit (get_mask (the (enable_field i))) n)"
    by (auto simp: irqs_allowed_def Let_def bit_foldl_or)
  also have "\<dots> \<longleftrightarrow> (\<exists>i \<in> set all_irqs. \<exists>f. enable_field i = Some f \<and> get_register f = rg
         \<and> r \<notin> set (resources i) \<and> bit (get_mask f) n)"
    by (rule bex_cong[OF refl])
       (auto simp: doesnt_require_resource_def has_enable_field_def in_register_def)
  finally show ?thesis .
qed

lemma do_call_allowed_inv:
  assumes "allowed_enables s = allowed_mask_spec all_irqs (is_resource_on s)"
  shows "allowed_enables (do_call all_irqs s c)
           = allowed_mask_spec all_irqs (is_resource_on (do_call all_irqs s c))"
proof (cases c)
  case (Update_resource r st)
  have "allowed_enables (update_resource all_irqs r st s) x
          = allowed_mask_spec all_irqs (is_resource_on (update_resource all_irqs r st s)) x" for x
    using fun_cong[OF assms, of x]
    by (simp add: update_resource_allowed allowed_mask_spec_def)
  then show ?thesis using Update_resource by auto
next
  case (Turn_on_resource r)
  have "allowed_enables (update_resource all_irqs r ON s) x
          = allowed_mask_spec all_irqs (is_resource_on (update_resource all_irqs r ON s)) x" for x
    using fun_cong[OF assms, of x]
    by (simp add: update_resource_allowed allowed_mask_spec_def)
  then show ?thesis using Turn_on_resource by (auto simp: turn_on_resource_def)
next
  case (Turn_off_resource r)
  have "allowed_enables (update_resource all_irqs r OFF s) x
          = allowed_mask_spec all_irqs (is_resource_on (update_resource all_irqs r OFF s)) x" for x
    using fun_cong[OF assms, of x]
    by (simp add: update_resource_allowed allowed_mask_spec_def)
  then show ?thesis using Turn_off_resource by (auto simp: turn_off_resource_def)
next
  case (Enable_by_field en fs)
  then show ?thesis using assms by simp
next
  case (Enable cbs)
  then show ?thesis using assms by (simp add: enable_def enable_by_name_def Let_def)
next
  case (Disable cbs)
  then show ?thesis using assms by (simp add: disable_def enable_by_name_def Let_def)
qed

lemma init_allowed_inv:
  "allowed_enables (init_controller :: ('res, 'reg, 'w::len word) controller)
     = allowed_mask_spec (all_irqs :: ('res, 'reg, 'cb, 'w word) irq list) (is_resource_on (init_controller :: ('res, 'reg, 'w::len word) controller))"
  by (auto simp: init_controller_def allowed_mask_spec_def)

lemma run_calls_snoc:
  "run_calls all_irqs (calls @ [c]) = do_call all_irqs (run_calls all_irqs calls) c"
  by (simp add: run_calls_def)

lemma run_calls_allowed:
  "allowed_enables (run_calls all_irqs calls)
     = allowed_mask_spec all_irqs (is_resource_on (run_calls all_irqs calls))"
proof (induction calls rule: rev_induct)
  case Nil
  show ?case using init_allowed_inv by (simp add: run_calls_def)
next
  case (snoc c calls)
  show ?case unfolding run_calls_snoc by (rule do_call_allowed_inv[OF snoc.IH])
qed

section \<open>Hardware writes\<close>

lemma allowed_update_resource_other:
  "x \<notin> set (all_resource_affected_regs all_irqs) \<Longrightarrow>
   allowed_enables (update_resource all_irqs r st s) x = allowed_enables s x"
  by (simp add: update_resource_allowed)

lemma last_written_update_resource:
  "last_written (update_resource all_irqs r st s) x
   = (if x \<in> set (all_resource_affected_regs all_irqs)
      then Some (allowed_enables (update_resource all_irqs r st s) x
                   AND dynamic_enables (update_resource all_irqs r st s) x)
      else last_written s x)"
  by (simp add: update_resource_def call_in_critical_section_def Let_def last_written_reprogram)
     (simp add: last_written_def)

lemma last_written_enable_by_field:
  "last_written (enable_by_field en fs s) x
   = (if x \<in> get_register ` set fs
      then Some (allowed_enables (enable_by_field en fs s) x
                   AND dynamic_enables (enable_by_field en fs s) x)
      else last_written s x)"
  by (simp add: enable_by_field_def call_in_critical_section_def Let_def last_written_reprogram)
     (simp add: last_written_def)

lemma hw_composed_update_resource:
  "hw_composed s \<Longrightarrow> hw_composed (update_resource all_irqs r st s)"
  unfolding hw_composed_def
  by (auto simp: last_written_update_resource allowed_update_resource_other split: if_splits)

lemma hw_composed_enable_by_field:
  "hw_composed s \<Longrightarrow> hw_composed (enable_by_field en fs s)"
  unfolding hw_composed_def
  by (auto simp: last_written_enable_by_field enable_by_field_other split: if_splits)

lemma hw_composed_do_call: "hw_composed s \<Longrightarrow> hw_composed (do_call all_irqs s c)"
  by (cases c)
     (simp_all add: hw_composed_update_resource hw_composed_enable_by_field
        turn_on_resource_def turn_off_resource_def enable_def disable_def enable_by_name_def Let_def)

lemma hw_composed_run_calls: "hw_composed (run_calls all_irqs calls)"
proof (induction calls rule: rev_induct)
  case Nil
  show ?case by (simp add: run_calls_def hw_composed_def last_written_def init_controller_def)
next
  case (snoc c calls)
  then show ?case unfolding run_calls_snoc by (rule hw_composed_do_call)
qed

text \<open>The definitions a concrete scenario unfolds.\<close>

lemmas eval_defs = run_calls_def init_controller_def update_resource_def turn_on_resource_def
  turn_off_resource_def
  enable_by_field_def enable_by_name_def enable_def disable_def call_in_critical_section_def
  recalculate_allowed_enables_def reprogram_interrupt_enables_def all_resource_affected_regs_def
  all_resources_def get_unique_regs_def irqs_allowed_def in_register_def doesnt_require_resource_def
  has_enable_field_def match_callback_def last_written_def Let_def

section \<open>Masks and resource states\<close>

lemma bit_foldr_or:
  "bit (foldr (OR) ms (a::'w::len word)) n \<longleftrightarrow> bit a n \<or> (\<exists>m \<in> set ms. bit m n)"
  by (induction ms) (auto simp: bit_or_iff)

lemma bit_irqs_allowed_spec:
  "bit (irqs_allowed_spec all_irqs r rg) n \<longleftrightarrow>
     (\<exists>i \<in> set all_irqs. \<exists>f. enable_field i = Some f \<and> get_register f = rg
         \<and> r \<notin> set (resources i) \<and> bit (get_mask f) n)"
  unfolding irqs_allowed_spec_def bit_foldr_or
  by (induction all_irqs) (auto simp: opt_list_def split: option.splits)

lemma bit_allowed_mask_spec:
  "bit (allowed_mask_spec all_irqs on rg) n \<longleftrightarrow>
     n < LENGTH('w) \<and>
     (rg \<in> set (all_resource_affected_regs all_irqs) \<longrightarrow>
        (\<forall>r \<in> set (all_resources all_irqs). \<not> on r \<longrightarrow> bit (irqs_allowed all_irqs r rg) n))"
  for all_irqs :: "('res, 'reg, 'cb, 'w::len word) irq list"
  by (auto simp: allowed_mask_spec_def bit_foldl_and)

lemma do_call_allowed_other:
  "rg \<notin> set (all_resource_affected_regs all_irqs) \<Longrightarrow>
   allowed_enables (do_call all_irqs s c) rg = allowed_enables s rg"
  by (cases c)
     (simp_all add: allowed_update_resource_other turn_on_resource_def turn_off_resource_def
        enable_def disable_def enable_by_name_def Let_def)

lemma enable_by_field_Nil: "enable_by_field en [] s = s"
  by (simp add: enable_by_field_def call_in_critical_section_def get_unique_regs_def
      reprogram_interrupt_enables_def)

lemma matching_fields:
  "map (\<lambda>i. the (enable_field i)) (filter (match_callback cbs) all_irqs)
   = [f. i \<leftarrow> all_irqs, f \<leftarrow> opt_list (enable_field i), IrqCallbackType i \<in> set cbs]"
  by (induction all_irqs)
     (auto simp: match_callback_def has_enable_field_def opt_list_def split: option.splits)

lemma resources_subset_all_resources:
  "i \<in> set all_irqs \<Longrightarrow> set (resources i) \<subseteq> set (all_resources all_irqs)"
  by (auto simp: set_all_resources)

lemma dependent_register_affected:
  "i \<in> set all_irqs \<Longrightarrow> enable_field i = Some f \<Longrightarrow> resources i \<noteq> [] \<Longrightarrow>
   get_register f \<in> set (all_resource_affected_regs all_irqs)"
  unfolding set_all_resource_affected_regs by blast

lemma unaffected_register_independent:
  "i \<in> set all_irqs \<Longrightarrow> enable_field i = Some f \<Longrightarrow>
   get_register f \<notin> set (all_resource_affected_regs all_irqs) \<Longrightarrow> resources i = []"
  using dependent_register_affected by blast

lemma bit_irqs_allowed_sole:
  assumes "i \<in> set all_irqs" "enable_field i = Some f" "bit (get_mask f) n"
    and "\<forall>j \<in> set all_irqs. \<forall>g. enable_field j = Some g \<and> get_register g = get_register f
            \<and> bit (get_mask g) n \<longrightarrow> j = i"
  shows "bit (irqs_allowed all_irqs r (get_register f)) n \<longleftrightarrow> r \<notin> set (resources i)"
  unfolding bit_irqs_allowed using assms by blast

lemma bit_allowed_mask_spec_sole:
  fixes all_irqs :: "('res, 'reg, 'cb, 'w::len word) irq list"
  assumes i: "i \<in> set all_irqs" and f: "enable_field i = Some f" and n: "bit (get_mask f) n"
    and sole: "\<forall>j \<in> set all_irqs. \<forall>g. enable_field j = Some g \<and> get_register g = get_register f
            \<and> bit (get_mask g) n \<longrightarrow> j = i"
  shows "bit (allowed_mask_spec all_irqs on (get_register f)) n
           \<longleftrightarrow> (\<forall>r \<in> set (resources i). on r)"
proof (cases "get_register f \<in> set (all_resource_affected_regs all_irqs)")
  case True
  have len: "n < LENGTH('w)" using n by (rule bit_imp_le_length)
  have "bit (allowed_mask_spec all_irqs on (get_register f)) n
      \<longleftrightarrow> (\<forall>r \<in> set (all_resources all_irqs). \<not> on r \<longrightarrow> r \<notin> set (resources i))"
    using True len by (simp add: bit_allowed_mask_spec bit_irqs_allowed_sole[OF i f n sole])
  also have "\<dots> \<longleftrightarrow> (\<forall>r \<in> set (resources i). on r)"
    using resources_subset_all_resources[OF i] by blast
  finally show ?thesis .
next
  case False
  have len: "n < LENGTH('w)" using n by (rule bit_imp_le_length)
  have "resources i = []" using unaffected_register_independent[OF i f False] .
  then show ?thesis using False len by (simp add: bit_allowed_mask_spec)
qed

lemma update_resource_allowed_spec:
  "allowed_enables (update_resource all_irqs r st s) x
   = (if x \<in> set (all_resource_affected_regs all_irqs)
      then allowed_mask_spec all_irqs (is_resource_on (update_resource all_irqs r st s)) x
      else allowed_enables s x)"
  by (simp add: update_resource_allowed allowed_mask_spec_def)

lemma turn_on_after_turn_off_allowed:
  assumes inv: "allowed_enables s = allowed_mask_spec all_irqs (is_resource_on s)"
    and on: "is_resource_on s a"
  shows "allowed_enables (turn_on_resource all_irqs a (turn_off_resource all_irqs a s))
           = allowed_enables s"
proof
  fix x
  let ?s1 = "update_resource all_irqs a OFF s"
  let ?s2 = "update_resource all_irqs a ON ?s1"
  have "(is_resource_on s)(a := True) = is_resource_on s"
    using on by (simp add: fun_upd_idem_iff)
  then have res: "is_resource_on ?s2 = is_resource_on s"
    by simp
  have "allowed_enables ?s2 x = allowed_enables s x"
  proof (cases "x \<in> set (all_resource_affected_regs all_irqs)")
    case True
    then have "allowed_enables ?s2 x = allowed_mask_spec all_irqs (is_resource_on ?s2) x"
      by (simp only: update_resource_allowed_spec if_True)
    then show ?thesis by (simp only: res inv)
  next
    case False
    then show ?thesis by (simp only: update_resource_allowed_spec if_False)
  qed
  then show "allowed_enables (turn_on_resource all_irqs a (turn_off_resource all_irqs a s)) x
           = allowed_enables s x"
    by (simp only: turn_on_resource_def turn_off_resource_def)
qed

lemma turn_off_clears_bit:
  fixes all_irqs :: "('res, 'reg, 'cb, 'w::len word) irq list"
  assumes i: "i \<in> set all_irqs" and f: "enable_field i = Some f" and a: "a \<in> set (resources i)"
    and sole: "\<forall>j \<in> set all_irqs. \<forall>g. enable_field j = Some g \<and> get_register g = get_register f
            \<and> bit (get_mask g) n \<longrightarrow> a \<in> set (resources j)"
  shows "\<not> bit (allowed_enables (turn_off_resource all_irqs a s) (get_register f)) n"
proof -
  have aff: "get_register f \<in> set (all_resource_affected_regs all_irqs)"
  proof -
    have "resources i \<noteq> []" using a by auto
    then show ?thesis by (rule dependent_register_affected[OF i f])
  qed
  have mem: "a \<in> set (all_resources all_irqs)"
    using resources_subset_all_resources[OF i] a by auto
  have nb: "\<not> bit (irqs_allowed all_irqs a (get_register f)) n"
    unfolding bit_irqs_allowed using sole by blast
  show ?thesis
    using aff mem nb
    by (auto simp: turn_off_resource_def update_resource_allowed bit_foldl_and)
qed

lemma allowed_mask_spec_mono:
  fixes all_irqs :: "('res, 'reg, 'cb, 'w::len word) irq list"
  assumes "\<And>r. on r \<Longrightarrow> on' r" and "bit (allowed_mask_spec all_irqs on rg) n"
  shows "bit (allowed_mask_spec all_irqs on' rg) n"
  using assms unfolding bit_allowed_mask_spec by blast

lemma turn_on_after_turn_off_bit:
  fixes all_irqs :: "('res, 'reg, 'cb, 'w::len word) irq list"
  assumes inv: "allowed_enables s = allowed_mask_spec all_irqs (is_resource_on s)"
    and aff: "rg \<in> set (all_resource_affected_regs all_irqs)"
    and al: "bit (allowed_enables s rg) n"
  shows "bit (allowed_enables (turn_on_resource all_irqs a (turn_off_resource all_irqs a s)) rg) n"
proof -
  let ?s2 = "update_resource all_irqs a ON (update_resource all_irqs a OFF s)"
  have res: "is_resource_on ?s2 = (is_resource_on s)(a := True)"
    by simp
  have "allowed_enables ?s2 rg = allowed_mask_spec all_irqs ((is_resource_on s)(a := True)) rg"
    using aff by (simp only: update_resource_allowed_spec if_True res)
  moreover have "bit (allowed_mask_spec all_irqs ((is_resource_on s)(a := True)) rg) n"
  proof (rule allowed_mask_spec_mono)
    show "bit (allowed_mask_spec all_irqs (is_resource_on s) rg) n"
      using al by (simp only: inv)
    show "\<And>r. is_resource_on s r \<Longrightarrow> ((is_resource_on s)(a := True)) r"
      by simp
  qed
  ultimately show ?thesis
    by (simp only: turn_on_resource_def turn_off_resource_def)
qed

section \<open>The handler's index\<close>

lemma bit_indices_call:
  "bit (indices_call ix ixs data) i \<longleftrightarrow> (\<forall>iy \<in> set (ix # ixs). bit (index_call iy data) i)"
  by (induction ix ixs data rule: indices_call.induct) (auto simp: bit_and_iff)

lemma bit_handler_index: "bit (handler_index h msg) i \<longleftrightarrow> in_intersection h msg i"
  by (simp only: handler_index_def in_intersection_def bit_indices_call)

lemma none_iff: "none w \<longleftrightarrow> (\<forall>i. \<not> bit w i)"
  by (auto simp: none_def bit_eq_iff dest: bit_imp_le_length)

lemma set_set_bits: "set (set_bits w) = {i. bit w i}"
  by (auto simp: set_bits_def bit_imp_le_length)

lemma count_list_distinct:
  "distinct xs \<Longrightarrow> count_list xs x = (if x \<in> set xs then 1 else 0)"
  by (induction xs) auto

lemma count_set_bits: "count_list (set_bits w) i = (if bit w i then 1 else 0)"
proof -
  have "distinct (set_bits w)" by (simp add: set_bits_def)
  then show ?thesis
    by (simp add: count_list_distinct set_set_bits)
qed

lemma count_handle_callback:
  "count_list (handle h msg) (Callback i) = (if bit (handler_index h msg) i then 1 else 0)"
proof -
  have "inj Callback" by (simp add: inj_def)
  then have "count_list (map Callback (set_bits (handler_index h msg))) (Callback i)
      = count_list (set_bits (handler_index h msg)) i"
    by (rule count_list_map_conv)
  then show ?thesis by (simp add: handle_def Let_def count_set_bits)
qed

section \<open>Claims\<close>

text \<open>
  C1. After every completed control-surface call, the value most recently written to a register
  equals \<open>AllowedMask[R] & RequestedMask[R]\<close> of the state the call leaves behind. First conjunct:
  in every state reached from the initial one by any sequence of control-surface calls, a register
  that has been written holds exactly that value. Second and third conjunct: from any state,
  \<open>update_resource\<close> writes every affected register, and \<open>enable_by_field\<close> every register of its
  fields, with that value.
\<close>

theorem hardware_value_is_allowed_and_requested:
  "(last_written (run_calls all_irqs calls) rg = Some v \<longrightarrow>
      v = allowed_enables (run_calls all_irqs calls) rg
            AND dynamic_enables (run_calls all_irqs calls) rg)
   \<and> (rg \<in> set (all_resource_affected_regs all_irqs) \<longrightarrow>
      last_written (update_resource all_irqs r st s) rg
        = Some (allowed_enables (update_resource all_irqs r st s) rg
                  AND dynamic_enables (update_resource all_irqs r st s) rg))
   \<and> (rg \<in> get_register ` set fs \<longrightarrow>
      last_written (enable_by_field en fs s) rg
        = Some (allowed_enables (enable_by_field en fs s) rg
                  AND dynamic_enables (enable_by_field en fs s) rg))"
  using hw_composed_run_calls[of all_irqs calls]
  by (simp add: hw_composed_def last_written_update_resource last_written_enable_by_field)

theorem hardware_value_is_allowed_and_requested_witness:
  "last_written (run_calls example_irqs
       [Enable_by_field True [field_X, field_Y], Turn_off_resource ''A'']) ''R1'' = Some 2
   \<and> allowed_enables (run_calls example_irqs
           [Enable_by_field True [field_X, field_Y], Turn_off_resource ''A'']) ''R1''
       AND dynamic_enables (run_calls example_irqs
           [Enable_by_field True [field_X, field_Y], Turn_off_resource ''A'']) ''R1'' = 2
   \<and> ''R1'' \<in> set (all_resource_affected_regs example_irqs)
   \<and> last_written (update_resource example_irqs ''A'' OFF init_controller) ''R1'' = Some 0
   \<and> ''R1'' \<in> get_register ` set [field_X]
   \<and> last_written (enable_by_field True [field_X] init_controller) ''R1'' = Some 1"
  using hardware_value_is_allowed_and_requested
    [of example_irqs "[Enable_by_field True [field_X, field_Y], Turn_off_resource ''A'']"
        "''R1''" 2 "''A''" OFF init_controller "[field_X]" True]
  by (simp add: example_irqs_def field_X_def field_Y_def eval_defs)

text \<open>
  C2. In every state reached by control-surface calls, for an interrupt \<open>i\<close> with enable field \<open>f\<close>
  and a bit \<open>n\<close> of the field that no other interrupt claims in that register: the bit of
  \<open>AllowedMask\<close> is 1 exactly when every resource \<open>i\<close> depends on is ON (so it is 1 when \<open>i\<close> depends
  on no resource, and 0 as soon as one of them is OFF). For an interrupt depending on exactly
  \<open>{a, b}\<close> the bit is 1 exactly when both are ON, and turning off any resource it depends on
  clears the bit.
\<close>

theorem allowed_bit_iff_no_dependency_off:
  fixes all_irqs :: "('res, 'reg, 'cb, 'w::len word) irq list"
  assumes i: "i \<in> set all_irqs" and f: "enable_field i = Some f" and n: "bit (get_mask f) n"
    and sole: "\<forall>j \<in> set all_irqs. \<forall>g. enable_field j = Some g \<and> get_register g = get_register f
            \<and> bit (get_mask g) n \<longrightarrow> j = i"
  shows "(bit (allowed_enables (run_calls all_irqs calls) (get_register f)) n
            \<longleftrightarrow> (\<forall>r \<in> set (resources i). is_resource_on (run_calls all_irqs calls) r))
       \<and> (set (resources i) = {a, b} \<longrightarrow>
            (bit (allowed_enables (run_calls all_irqs calls) (get_register f)) n
               \<longleftrightarrow> is_resource_on (run_calls all_irqs calls) a
                    \<and> is_resource_on (run_calls all_irqs calls) b))
       \<and> (r \<in> set (resources i) \<longrightarrow>
            \<not> bit (allowed_enables (turn_off_resource all_irqs r (run_calls all_irqs calls))
                     (get_register f)) n)"
proof -
  have main: "bit (allowed_enables (run_calls all_irqs cs) (get_register f)) n
            \<longleftrightarrow> (\<forall>r \<in> set (resources i). is_resource_on (run_calls all_irqs cs) r)" for cs
    by (simp only: run_calls_allowed bit_allowed_mask_spec_sole[OF i f n sole])
  have off: "turn_off_resource all_irqs r (run_calls all_irqs calls)
      = run_calls all_irqs (calls @ [Turn_off_resource r])"
    by (simp add: run_calls_snoc)
  have "\<not> bit (allowed_enables (turn_off_resource all_irqs r (run_calls all_irqs calls))
                     (get_register f)) n" if "r \<in> set (resources i)"
    unfolding off main using that
    by (auto simp: run_calls_snoc turn_off_resource_def)
  then show ?thesis using main[of calls] by auto
qed

theorem allowed_bit_iff_no_dependency_off_witness:
  "\<not> bit (allowed_enables (run_calls two_resource_irqs [Turn_off_resource ''B'']) ''R1'') 0
   \<and> is_resource_on (run_calls two_resource_irqs [Turn_off_resource ''B'']) ''A''
   \<and> \<not> is_resource_on (run_calls two_resource_irqs [Turn_off_resource ''B'']) ''B''
   \<and> bit (allowed_enables (run_calls two_resource_irqs []) ''R1'') 0
   \<and> \<not> bit (allowed_enables (turn_off_resource two_resource_irqs ''A''
               (run_calls two_resource_irqs [])) ''R1'') 0"
proof -
  let ?i = "\<lparr>enable_field = Some field_X, resources = [''A'', ''B''],
             IrqCallbackType = ''X''\<rparr> :: (string, string, string, 32 word) irq"
  have i: "?i \<in> set two_resource_irqs"
    by (simp add: two_resource_irqs_def)
  have f: "enable_field ?i = Some field_X"
    by simp
  have n: "bit (get_mask field_X) 0"
    by (simp add: field_X_def)
  have sole: "\<forall>j \<in> set two_resource_irqs. \<forall>g. enable_field j = Some g
       \<and> get_register g = get_register field_X \<and> bit (get_mask g) 0 \<longrightarrow> j = ?i"
    by (simp add: two_resource_irqs_def)
  have ab: "set (resources ?i) = {''A'', ''B''}"
    by simp
  have a: "''A'' \<in> set (resources ?i)"
    by simp
  have r1: "get_register field_X = ''R1''"
    by (simp add: field_X_def)
  show ?thesis
    using allowed_bit_iff_no_dependency_off [OF i f n sole,
        where calls = "[Turn_off_resource ''B'']" and a = "''A''" and b = "''B''" and r = "''A''"]
      allowed_bit_iff_no_dependency_off [OF i f n sole,
        where calls = "[]" and a = "''A''" and b = "''B''" and r = "''A''"]
      ab a r1
    by (simp add: run_calls_def init_controller_def turn_off_resource_def)
qed

text \<open>
  C3. In every state reached by control-surface calls, \<open>AllowedMask\<close> is the function
  \<open>allowed_mask_spec\<close> of the current resource states alone: for an affected register the bitwise
  and of \<open>IrqsAllowed(resource, register)\<close> over the resources of \<open>AllResources\<close> that are OFF
  (bit by bit: a bit is 1 exactly when it is 1 in \<open>IrqsAllowed\<close> of every such resource, whatever
  their order), all-ones when none is OFF; for a register that is not affected it is all-ones, and
  no call changes it.
\<close>

theorem allowed_mask_is_function_of_resource_states:
  fixes all_irqs :: "('res, 'reg, 'cb, 'w::len word) irq list"
  shows
  "allowed_enables (run_calls all_irqs calls) rg
     = allowed_mask_spec all_irqs (is_resource_on (run_calls all_irqs calls)) rg
   \<and> (bit (allowed_mask_spec all_irqs on rg) n \<longleftrightarrow>
        n < LENGTH('w) \<and>
        (rg \<in> set (all_resource_affected_regs all_irqs) \<longrightarrow>
           (\<forall>r \<in> set (all_resources all_irqs). \<not> on r \<longrightarrow> bit (irqs_allowed all_irqs r rg) n)))
   \<and> (rg \<notin> set (all_resource_affected_regs all_irqs) \<longrightarrow>
        allowed_enables (run_calls all_irqs calls) rg = - 1
        \<and> allowed_enables (do_call all_irqs s c) rg = allowed_enables s rg)"
  using run_calls_allowed[of all_irqs calls] bit_allowed_mask_spec[of all_irqs on rg n]
  by (simp add: do_call_allowed_other allowed_mask_spec_def)

theorem allowed_mask_is_function_of_resource_states_witness:
  "allowed_enables (run_calls example_irqs [Turn_off_resource ''A'']) ''R1'' = 2
   \<and> allowed_mask_spec example_irqs (\<lambda>r. r \<noteq> ''A'') ''R1'' = 2
   \<and> ''R1'' \<in> set (all_resource_affected_regs example_irqs)
   \<and> ''A'' \<in> set (all_resources example_irqs)
   \<and> \<not> bit (irqs_allowed example_irqs ''A'' ''R1'') 0
   \<and> ''R2'' \<notin> set (all_resource_affected_regs example_irqs)
   \<and> allowed_enables (run_calls example_irqs [Turn_off_resource ''A'']) ''R2'' = - 1
   \<and> allowed_enables (do_call example_irqs init_controller (Turn_off_resource ''A'')) ''R2''
       = allowed_enables (init_controller :: (string, string, 32 word) controller) ''R2''"
  using allowed_mask_is_function_of_resource_states
      [where all_irqs = example_irqs and calls = "[Turn_off_resource ''A'']" and rg = "''R1''"
         and on = "\<lambda>r. r \<noteq> ''A''" and n = 0 and s = init_controller
         and c = "Turn_off_resource ''A''"]
    allowed_mask_is_function_of_resource_states
      [where all_irqs = example_irqs and calls = "[Turn_off_resource ''A'']" and rg = "''R2''"
         and on = "\<lambda>r. r \<noteq> ''A''" and n = 0 and s = init_controller
         and c = "Turn_off_resource ''A''"]
  by (simp add: example_irqs_def field_X_def field_Y_def allowed_mask_spec_def eval_defs)

text \<open>
  C4. \<open>IrqsAllowed(resource, register)\<close> as the code computes it equals the bitwise or of the
  field masks of exactly the interrupts that have an enable field, whose field belongs to the
  register, and that do not list the resource; bit by bit, a bit is set exactly when such an
  interrupt's field mask has it.
\<close>

theorem irqs_allowed_is_or_of_independent_fields:
  "irqs_allowed all_irqs r rg = irqs_allowed_spec all_irqs r rg
   \<and> (bit (irqs_allowed all_irqs r rg) n \<longleftrightarrow>
        (\<exists>i \<in> set all_irqs. \<exists>f. enable_field i = Some f \<and> get_register f = rg
           \<and> r \<notin> set (resources i) \<and> bit (get_mask f) n))"
proof
  show "irqs_allowed all_irqs r rg = irqs_allowed_spec all_irqs r rg"
    by (rule bit_eqI) (simp only: bit_irqs_allowed bit_irqs_allowed_spec)
  show "bit (irqs_allowed all_irqs r rg) n \<longleftrightarrow>
        (\<exists>i \<in> set all_irqs. \<exists>f. enable_field i = Some f \<and> get_register f = rg
           \<and> r \<notin> set (resources i) \<and> bit (get_mask f) n)"
    by (rule bit_irqs_allowed)
qed

text \<open>
  C5, as amended. From any state, \<open>turn_off_resource(a)\<close> clears in \<open>AllowedMask\<close> every bit of a
  field whose interrupt depends on \<open>a\<close>, provided every interrupt that claims the bit in that
  register depends on \<open>a\<close>; \<open>turn_off_resource(a)\<close> and \<open>turn_on_resource(a)\<close> right after it leave
  every \<open>RequestedMask\<close> unchanged. From a state reached by control-surface calls in which \<open>a\<close> is
  ON, turning \<open>a\<close> off and on again restores \<open>AllowedMask\<close> to its prior value. From a state
  reached by control-surface calls, a bit of a field whose interrupt depends on \<open>a\<close> that was
  allowed and requested before is written to the hardware as 1 again by the turn-on, with no
  enable call.
\<close>

theorem resource_off_then_on_restores:
  fixes all_irqs :: "('res, 'reg, 'cb, 'w::len word) irq list"
  shows
  "(i \<in> set all_irqs \<and> enable_field i = Some f \<and> a \<in> set (resources i)
      \<and> (\<forall>j \<in> set all_irqs. \<forall>g. enable_field j = Some g
             \<and> get_register g = get_register f \<and> bit (get_mask g) n \<longrightarrow> a \<in> set (resources j))
      \<longrightarrow> \<not> bit (allowed_enables (turn_off_resource all_irqs a s) (get_register f)) n)
   \<and> dynamic_enables (turn_off_resource all_irqs a s) = dynamic_enables s
   \<and> dynamic_enables (turn_on_resource all_irqs a (turn_off_resource all_irqs a s))
       = dynamic_enables s
   \<and> (is_resource_on (run_calls all_irqs calls) a \<longrightarrow>
        allowed_enables (turn_on_resource all_irqs a
            (turn_off_resource all_irqs a (run_calls all_irqs calls)))
          = allowed_enables (run_calls all_irqs calls))
   \<and> (i \<in> set all_irqs \<and> enable_field i = Some f \<and> a \<in> set (resources i)
      \<and> bit (allowed_enables (run_calls all_irqs calls) (get_register f)) n
      \<and> bit (dynamic_enables (run_calls all_irqs calls) (get_register f)) n
      \<longrightarrow> (\<exists>v. last_written (turn_on_resource all_irqs a
                     (turn_off_resource all_irqs a (run_calls all_irqs calls)))
                   (get_register f) = Some v \<and> bit v n))"
proof (intro conjI impI)
  assume h: "i \<in> set all_irqs \<and> enable_field i = Some f \<and> a \<in> set (resources i)
      \<and> (\<forall>j \<in> set all_irqs. \<forall>g. enable_field j = Some g
             \<and> get_register g = get_register f \<and> bit (get_mask g) n \<longrightarrow> a \<in> set (resources j))"
  then have i: "i \<in> set all_irqs" and f: "enable_field i = Some f"
    and a: "a \<in> set (resources i)"
    and sole: "\<forall>j \<in> set all_irqs. \<forall>g. enable_field j = Some g
             \<and> get_register g = get_register f \<and> bit (get_mask g) n \<longrightarrow> a \<in> set (resources j)"
    by blast+
  show "\<not> bit (allowed_enables (turn_off_resource all_irqs a s) (get_register f)) n"
    by (rule turn_off_clears_bit[OF i f a sole])
next
  show "dynamic_enables (turn_off_resource all_irqs a s) = dynamic_enables s"
    by (simp add: turn_off_resource_def)
next
  show "dynamic_enables (turn_on_resource all_irqs a (turn_off_resource all_irqs a s))
       = dynamic_enables s"
    by (simp add: turn_off_resource_def turn_on_resource_def)
next
  assume on: "is_resource_on (run_calls all_irqs calls) a"
  show "allowed_enables (turn_on_resource all_irqs a
            (turn_off_resource all_irqs a (run_calls all_irqs calls)))
          = allowed_enables (run_calls all_irqs calls)"
    by (rule turn_on_after_turn_off_allowed[OF run_calls_allowed on])
next
  let ?s = "run_calls all_irqs calls"
  let ?s2 = "turn_on_resource all_irqs a (turn_off_resource all_irqs a ?s)"
  assume h: "i \<in> set all_irqs \<and> enable_field i = Some f \<and> a \<in> set (resources i)
      \<and> bit (allowed_enables ?s (get_register f)) n
      \<and> bit (dynamic_enables ?s (get_register f)) n"
  then have i: "i \<in> set all_irqs" and f: "enable_field i = Some f"
    and a: "a \<in> set (resources i)"
    and al: "bit (allowed_enables ?s (get_register f)) n"
    and rq: "bit (dynamic_enables ?s (get_register f)) n"
    by blast+
  have "resources i \<noteq> []" using a by auto
  then have aff: "get_register f \<in> set (all_resource_affected_regs all_irqs)"
    by (rule dependent_register_affected[OF i f])
  have b: "bit (allowed_enables ?s2 (get_register f)) n"
    by (rule turn_on_after_turn_off_bit[OF run_calls_allowed aff al])
  have d: "dynamic_enables ?s2 = dynamic_enables ?s"
    by (simp add: turn_off_resource_def turn_on_resource_def)
  have w: "last_written ?s2 (get_register f)
      = Some (allowed_enables ?s2 (get_register f) AND dynamic_enables ?s2 (get_register f))"
    using aff by (simp add: turn_on_resource_def last_written_update_resource)
  show "\<exists>v. last_written ?s2 (get_register f) = Some v \<and> bit v n"
    using w b rq d by (simp add: bit_and_iff)
qed

theorem resource_off_then_on_restores_witness:
  "\<not> bit (allowed_enables (turn_off_resource example_irqs ''A''
            (run_calls example_irqs [Enable_by_field True [field_X, field_Y]])) ''R1'') 0
   \<and> is_resource_on (run_calls example_irqs [Enable_by_field True [field_X, field_Y]]) ''A''
   \<and> allowed_enables (turn_on_resource example_irqs ''A'' (turn_off_resource example_irqs ''A''
            (run_calls example_irqs [Enable_by_field True [field_X, field_Y]]))) ''R1'' = - 1
   \<and> bit (allowed_enables
            (run_calls example_irqs [Enable_by_field True [field_X, field_Y]]) ''R1'') 0
   \<and> bit (dynamic_enables
            (run_calls example_irqs [Enable_by_field True [field_X, field_Y]]) ''R1'') 0
   \<and> last_written (turn_off_resource example_irqs ''A''
            (run_calls example_irqs [Enable_by_field True [field_X, field_Y]])) ''R1'' = Some 2
   \<and> last_written (turn_on_resource example_irqs ''A'' (turn_off_resource example_irqs ''A''
            (run_calls example_irqs [Enable_by_field True [field_X, field_Y]]))) ''R1'' = Some 3"
proof -
  let ?i = "\<lparr>enable_field = Some field_X, resources = [''A''],
             IrqCallbackType = ''X''\<rparr> :: (string, string, string, 32 word) irq"
  let ?s = "run_calls example_irqs [Enable_by_field True [field_X, field_Y]]"
  have on: "is_resource_on ?s ''A''"
    by (simp add: eval_defs)
  have i: "?i \<in> set example_irqs"
    by (simp add: example_irqs_def)
  have f: "enable_field ?i = Some field_X"
    by simp
  have a: "''A'' \<in> set (resources ?i)"
    by simp
  have sole: "\<forall>j \<in> set example_irqs. \<forall>g. enable_field j = Some g
       \<and> get_register g = get_register field_X \<and> bit (get_mask g) 0 \<longrightarrow> ''A'' \<in> set (resources j)"
    by (simp add: example_irqs_def field_X_def field_Y_def)
  have al: "bit (allowed_enables ?s (get_register field_X)) 0"
    by (simp add: field_X_def eval_defs)
  have rq: "bit (dynamic_enables ?s (get_register field_X)) 0"
    by (simp add: field_X_def field_Y_def eval_defs)
  show ?thesis
    using resource_off_then_on_restores
        [where all_irqs = example_irqs and i = ?i and f = field_X and a = "''A''" and n = 0
           and s = ?s and calls = "[Enable_by_field True [field_X, field_Y]]"]
      on i f a sole al rq
    by (simp add: example_irqs_def field_X_def field_Y_def eval_defs)
qed

text \<open>
  C5 as stated fails in three ways. (1) When A is already OFF, turning it off and on again does
  not restore \<open>AllowedMask\<close> to its prior value. (2) For an interrupt depending on A and B with B
  OFF, the requested bit is not written back as 1 when A is turned off and on again. (3) With two
  interrupts on one enable field, only one of which depends on A (a table the derivation accepts),
  turning A off leaves the field's bit set in \<open>AllowedMask\<close>.
\<close>

theorem resource_gating_counterexample:
  "allowed_enables (turn_on_resource example_irqs ''A'' (turn_off_resource example_irqs ''A''
          (run_calls example_irqs [Turn_off_resource ''A'']))) ''R1''
       \<noteq> allowed_enables (run_calls example_irqs [Turn_off_resource ''A'']) ''R1''
   \<and> bit (dynamic_enables (run_calls two_resource_irqs
          [Enable_by_field True [field_X], Turn_off_resource ''B'']) ''R1'') 0
   \<and> last_written (turn_on_resource two_resource_irqs ''A''
          (turn_off_resource two_resource_irqs ''A'' (run_calls two_resource_irqs
             [Enable_by_field True [field_X], Turn_off_resource ''B'']))) ''R1'' = Some 0
   \<and> allowed_enables (turn_off_resource shared_bit_irqs ''A'' init_controller)
       (get_register field_X) AND get_mask field_X \<noteq> 0"
  by (simp add: shared_bit_irqs_def example_irqs_def two_resource_irqs_def field_X_def
      field_Y_def eval_defs)

text \<open>
  C6. The derivation has no rejecting path, and \<open>all_resources\<close> keeps a resource that one
  interrupt lists twice: for the table whose only interrupt lists A twice it is \<open>(A, A)\<close>.
\<close>

theorem all_resources_keeps_duplicate:
  "all_resources duplicate_resource_irqs = [''A'', ''A'']
   \<and> \<not> distinct (all_resources duplicate_resource_irqs)"
  by (simp add: duplicate_resource_irqs_def all_resources_def)

text \<open>
  C7. When no interrupt with an enable field has its callback among the given ones,
  \<open>enable_by_name\<close>, \<open>enable\<close> and \<open>disable\<close> return the state they were given: no mask, no resource
  state and no hardware write changes. In every case \<open>enable_by_name\<close> is \<open>enable_by_field\<close> on the
  enable fields, in table order, of the interrupts that have one and whose callback is among the
  given ones; \<open>enable\<close> and \<open>disable\<close> are \<open>enable_by_name\<close> with \<open>true\<close> and \<open>false\<close>.
\<close>

theorem enable_by_name_unmatched_is_noop:
  "((\<forall>i \<in> set all_irqs. enable_field i \<noteq> None \<longrightarrow> IrqCallbackType i \<notin> set cbs) \<longrightarrow>
      enable_by_name all_irqs en cbs s = s
      \<and> enable all_irqs cbs s = s \<and> disable all_irqs cbs s = s)
   \<and> enable_by_name all_irqs en cbs s
      = enable_by_field en
          [f. i \<leftarrow> all_irqs, f \<leftarrow> opt_list (enable_field i), IrqCallbackType i \<in> set cbs] s
   \<and> enable all_irqs cbs s = enable_by_name all_irqs True cbs s
   \<and> disable all_irqs cbs s = enable_by_name all_irqs False cbs s"
proof -
  have a: "enable_by_name all_irqs b cbs s
      = enable_by_field b
          [f. i \<leftarrow> all_irqs, f \<leftarrow> opt_list (enable_field i), IrqCallbackType i \<in> set cbs] s" for b
    by (simp only: enable_by_name_def Let_def matching_fields)
  have b: "enable_by_name all_irqs b cbs s = s"
    if "\<forall>i \<in> set all_irqs. enable_field i \<noteq> None \<longrightarrow> IrqCallbackType i \<notin> set cbs" for b
  proof -
    have "filter (match_callback cbs) all_irqs = []"
      using that by (auto simp: filter_empty_conv match_callback_def has_enable_field_def)
    then show ?thesis by (simp add: enable_by_name_def enable_by_field_Nil)
  qed
  show ?thesis using a b by (simp add: enable_def disable_def)
qed

theorem enable_by_name_unmatched_is_noop_witness:
  "enable_by_name example_irqs True [''Z'']
       (run_calls example_irqs [Enable_by_field True [field_X]])
     = run_calls example_irqs [Enable_by_field True [field_X]]
   \<and> hw_writes (disable example_irqs [''Z'']
       (run_calls example_irqs [Enable_by_field True [field_X]])) = [(''R1'', 1)]
   \<and> enable example_irqs [''Y''] init_controller
     = enable_by_field True [field_Y] init_controller"
proof -
  have none_matches: "\<forall>i \<in> set example_irqs.
      enable_field i \<noteq> None \<longrightarrow> IrqCallbackType i \<notin> set [''Z'']"
    by (simp add: example_irqs_def)
  have fields: "[f. i \<leftarrow> example_irqs, f \<leftarrow> opt_list (enable_field i),
                    IrqCallbackType i \<in> set [''Y'']] = [field_Y]"
    by (simp add: example_irqs_def opt_list_def)
  show ?thesis
    using enable_by_name_unmatched_is_noop
        [where all_irqs = example_irqs and cbs = "[''Z'']" and en = True
           and s = "run_calls example_irqs [Enable_by_field True [field_X]]"]
      enable_by_name_unmatched_is_noop
        [where all_irqs = example_irqs and cbs = "[''Y'']" and en = True
           and s = "init_controller :: (string, string, 32 word) controller"]
      none_matches fields
    by (simp add: field_X_def eval_defs)
qed

text \<open>
  C8. \<open>update_resource\<close>, \<open>turn_on_resource\<close> and \<open>turn_off_resource\<close> leave every register's
  \<open>RequestedMask\<close> unchanged; \<open>enable_by_field\<close>, \<open>enable_by_name\<close>, \<open>enable\<close> and \<open>disable\<close> leave
  every register's \<open>AllowedMask\<close> and every resource's state unchanged.
\<close>

theorem masks_have_one_writer_each:
  "dynamic_enables (update_resource all_irqs r st s) = dynamic_enables s
   \<and> dynamic_enables (turn_on_resource all_irqs r s) = dynamic_enables s
   \<and> dynamic_enables (turn_off_resource all_irqs r s) = dynamic_enables s
   \<and> allowed_enables (enable_by_field en fs s) = allowed_enables s
   \<and> is_resource_on (enable_by_field en fs s) = is_resource_on s
   \<and> allowed_enables (enable_by_name all_irqs en cbs s) = allowed_enables s
   \<and> is_resource_on (enable_by_name all_irqs en cbs s) = is_resource_on s
   \<and> allowed_enables (enable all_irqs cbs s) = allowed_enables s
   \<and> is_resource_on (enable all_irqs cbs s) = is_resource_on s
   \<and> allowed_enables (disable all_irqs cbs s) = allowed_enables s
   \<and> is_resource_on (disable all_irqs cbs s) = is_resource_on s"
  by (simp add: turn_on_resource_def turn_off_resource_def enable_def disable_def
      enable_by_name_def Let_def)

text \<open>
  C10. \<open>is_match\<close> is true exactly when the intersection of the per-field lookups is non-empty,
  which is exactly when \<open>handle\<close> invokes a callback; \<open>handle\<close> invokes \<open>callback_entries[i]\<close> once
  for every \<open>i\<close> of the intersection and for no other \<open>i\<close>, and logs the error exactly when the
  intersection is empty.
\<close>

theorem handler_matches_iff_callback_invoked:
  "(is_match h msg \<longleftrightarrow> (\<exists>i. in_intersection h msg i))
   \<and> (is_match h msg \<longleftrightarrow> (\<exists>i. Callback i \<in> set (handle h msg)))
   \<and> count_list (handle h msg) (Callback i) = (if in_intersection h msg i then 1 else 0)
   \<and> (Error ''None of the registered callbacks claimed this message.'' \<in> set (handle h msg)
        \<longleftrightarrow> \<not> (\<exists>i. in_intersection h msg i))"
proof -
  have m: "is_match h msg \<longleftrightarrow> (\<exists>i. in_intersection h msg i)"
    by (simp add: is_match_def none_iff bit_handler_index)
  have c: "(\<exists>i. Callback i \<in> set (handle h msg)) \<longleftrightarrow> (\<exists>i. in_intersection h msg i)"
    by (auto simp: handle_def Let_def set_set_bits bit_handler_index)
  have e: "Error ''None of the registered callbacks claimed this message.'' \<in> set (handle h msg)
        \<longleftrightarrow> \<not> (\<exists>i. in_intersection h msg i)"
    by (auto simp: handle_def Let_def none_iff bit_handler_index)
  show ?thesis using m c e by (simp add: count_handle_callback bit_handler_index)
qed

theorem handler_matches_iff_callback_invoked_witness:
  "is_match example_handler (1, 7)
   \<and> handle example_handler (1, 7) = [Callback 1]
   \<and> \<not> is_match example_handler (1, 0)
   \<and> handle example_handler (1, 0)
       = [Error ''None of the registered callbacks claimed this message.'']"
proof -
  have yes: "in_intersection example_handler (1, 7) 1"
    by (simp add: in_intersection_def example_handler_def index_call_def)
  have no: "\<not> (\<exists>i. in_intersection example_handler (1, 0) i)"
    by (simp add: in_intersection_def example_handler_def index_call_def)
  have called: "handle example_handler (1, 7) = [Callback 1]"
    by code_simp
  have logged: "handle example_handler (1, 0)
      = [Error ''None of the registered callbacks claimed this message.'']"
    by code_simp
  have matched: "is_match example_handler (1, 7)"
    using handler_matches_iff_callback_invoked [of example_handler "(1, 7)" 1] yes by blast
  have unmatched: "\<not> is_match example_handler (1, 0)"
    using handler_matches_iff_callback_invoked [of example_handler "(1, 0)" 0] no by blast
  show ?thesis
    using matched called unmatched logged by (intro conjI)
qed

end
